theory Spec2Isabelle
  imports Main "HOL-Library.Sublist"
begin

section \<open>The simulated file system\<close>

text \<open>
  The tree of \<^verbatim>\<open>src/index.tsx\<close> is a nested object literal: a directory is
  \<^verbatim>\<open>{type: 'dir', children: {...}}\<close>, a file is \<^verbatim>\<open>{type: 'file'}\<close>. The children
  object is kept as an association list in declaration order.
\<close>

datatype node = Dir "(string \<times> node) list" | File

text \<open>The constant \<^verbatim>\<open>fileSystem\<close>: an object whose only own key is \<^verbatim>\<open>'~'\<close>.\<close>

definition fileSystem :: "(string \<times> node) list" where
  "fileSystem =
     [(''~'', Dir
        [(''documents'', Dir [(''report.docx'', File)]),
         (''images'', Dir [(''photo.jpg'', File), (''vacation.png'', File)]),
         (''music'', Dir []),
         (''file1.txt'', File)])]"

text \<open>
  The values the variable \<^verbatim>\<open>currentLevel\<close> of \<^verbatim>\<open>getDirectory\<close> can hold: the
  \<^verbatim>\<open>fileSystem\<close> object itself, a node of the tree, a member that a children object
  inherits from \<^verbatim>\<open>Object.prototype\<close> (the children objects are plain object literals,
  so \<^verbatim>\<open>children['constructor']\<close> is a function), or \<^verbatim>\<open>undefined\<close>.
\<close>

datatype jsval = FsRoot | Node node | Inherited | Undefined

datatype exn = TypeError

text \<open>What a call returns: a value, \<^verbatim>\<open>null\<close>, or an exception that leaves the call.\<close>

datatype result = Value jsval | NullResult | Thrown exn

text \<open>The property names every plain object inherits; each of them holds a truthy value.\<close>

definition objectPrototypeKeys :: "string list" where
  "objectPrototypeKeys =
     [''constructor'', ''__proto__'', ''hasOwnProperty'', ''isPrototypeOf'',
      ''propertyIsEnumerable'', ''toLocaleString'', ''toString'', ''valueOf'',
      ''__defineGetter__'', ''__defineSetter__'', ''__lookupGetter__'', ''__lookupSetter__'']"

text \<open>The read \<^verbatim>\<open>obj[key]\<close> on a plain object with the given own entries.\<close>

definition member :: "(string \<times> node) list \<Rightarrow> string \<Rightarrow> jsval" where
  "member entries key =
     (case map_of entries key of
        Some n \<Rightarrow> Node n
      | None \<Rightarrow> if key \<in> set objectPrototypeKeys then Inherited else Undefined)"

text \<open>
  The read \<^verbatim>\<open>currentLevel['~']\<close>. A node object owns only \<^verbatim>\<open>type\<close> and
  \<^verbatim>\<open>children\<close>, and no inherited member has a \<^verbatim>\<open>'~'\<close> property, so the read gives
  \<^verbatim>\<open>undefined\<close> there; reading a property of \<^verbatim>\<open>undefined\<close> throws a TypeError.
\<close>

fun readHome :: "jsval \<Rightarrow> result" where
  "readHome FsRoot = Value (member fileSystem ''~'')"
| "readHome (Node n) = Value Undefined"
| "readHome Inherited = Value Undefined"
| "readHome Undefined = Thrown TypeError"

fun truthy :: "jsval \<Rightarrow> bool" where
  "truthy Undefined = False"
| "truthy v = True"

text \<open>The test \<^verbatim>\<open>v.type === 'dir'\<close> on a value that is not \<^verbatim>\<open>undefined\<close>.\<close>

fun typeIsDir :: "jsval \<Rightarrow> bool" where
  "typeIsDir (Node (Dir cs)) = True"
| "typeIsDir v = False"

text \<open>The loop of \<^verbatim>\<open>getDirectory\<close>, from the value \<^verbatim>\<open>currentLevel\<close> holds.\<close>

fun walk :: "jsval \<Rightarrow> string list \<Rightarrow> result" where
  "walk currentLevel [] = Value currentLevel"
| "walk currentLevel (part # rest) =
     (if part = ''~'' then
        (case readHome currentLevel of
           Value v \<Rightarrow> walk v rest
         | r \<Rightarrow> r)
      else
        (case currentLevel of
           Node (Dir children) \<Rightarrow>
             (if truthy (member children part) then walk (member children part) rest
              else NullResult)
         | _ \<Rightarrow> NullResult))"

definition getDirectory :: "string list \<Rightarrow> result" where
  "getDirectory pathParts = walk FsRoot pathParts"

section \<open>Strings\<close>

text \<open>\<^verbatim>\<open>s.split(sep)\<close> for a one-character separator.\<close>

fun splitOn :: "char \<Rightarrow> string \<Rightarrow> string list" where
  "splitOn sep [] = [[]]"
| "splitOn sep (c # cs) =
     (if c = sep then [] # splitOn sep cs
      else (case splitOn sep cs of
              t # ts \<Rightarrow> (c # t) # ts
            | [] \<Rightarrow> [[c]]))"

text \<open>\<^verbatim>\<open>xs.join(sep)\<close>.\<close>

fun joinWith :: "string \<Rightarrow> string list \<Rightarrow> string" where
  "joinWith sep [] = []"
| "joinWith sep [x] = x"
| "joinWith sep (x # y # ys) = x @ sep @ joinWith sep (y # ys)"

text \<open>
  The characters that \<^verbatim>\<open>\s\<close> and \<^verbatim>\<open>trim\<close> treat as white space, among the code
  units below 256: tab, line feed, vertical tab, form feed, carriage return, space and
  the no-break space.
\<close>

definition isWhitespace :: "char \<Rightarrow> bool" where
  "isWhitespace c \<longleftrightarrow>
     c \<in> set [CHR 0x09, CHR 0x0A, CHR 0x0B, CHR 0x0C, CHR 0x0D, CHR '' '', CHR 0xA0]"

definition trim :: "string \<Rightarrow> string" where
  "trim s = rev (dropWhile isWhitespace (rev (dropWhile isWhitespace s)))"

text \<open>\<^verbatim>\<open>s.split(/\s+/)\<close>: every maximal run of white space separates two pieces.\<close>

function splitWhitespace :: "string \<Rightarrow> string list" where
  "splitWhitespace [] = [[]]"
| "splitWhitespace (c # cs) =
     (if isWhitespace c then [] # splitWhitespace (dropWhile isWhitespace cs)
      else (case splitWhitespace cs of
              t # ts \<Rightarrow> (c # t) # ts
            | [] \<Rightarrow> [[c]]))"
  by pat_completeness auto
termination
  by (relation "measure length") (auto simp: less_Suc_eq_le length_dropWhile_le)

text \<open>\<^verbatim>\<open>s.startsWith('~')\<close>.\<close>

fun startsWithTilde :: "string \<Rightarrow> bool" where
  "startsWithTilde [] = False"
| "startsWithTilde (c # cs) = (c = CHR ''~'')"

section \<open>Session state\<close>

datatype logType = LogCommand | LogResponse | LogError

text \<open>
  A chat session is the object \<^verbatim>\<open>ai.chats.create\<close> returns. Its system instruction is
  \<^verbatim>\<open>getSystemInstruction(path)\<close>, a fixed text around \<^verbatim>\<open>path\<close> and the serialised
  constant tree, so the session is recorded by that path; \<open>chatId\<close> tells two objects
  created with the same path apart.
\<close>

record chatSession =
  chatId :: nat
  instructionPath :: string

record state =
  currentPath :: "string list"
  chat :: chatSession
  chatsCreated :: nat
  terminalOutput :: "(logType \<times> string) list"
  promptText :: string
  inputValue :: string
  inputDisabled :: bool

text \<open>
  \<^verbatim>\<open>appendToTerminal\<close>: a command line is shown after the prompt's text and a space.
\<close>

definition appendToTerminal :: "string \<Rightarrow> logType \<Rightarrow> state \<Rightarrow> state" where
  "appendToTerminal txt ty s =
     s\<lparr>terminalOutput := terminalOutput s @
          [(ty, if ty = LogCommand then promptText s @ '' '' @ txt else txt)]\<rparr>"

section \<open>The cd command\<close>

text \<open>The accumulation loop of \<^verbatim>\<open>handleCd\<close> over \<^verbatim>\<open>newPathParts\<close>.\<close>

fun resolveParts :: "string list \<Rightarrow> string list \<Rightarrow> string list" where
  "resolveParts resolvedPath [] = resolvedPath"
| "resolveParts resolvedPath (part # rest) =
     resolveParts
       (if part = ''..'' then
          (if length resolvedPath > 1 then butlast resolvedPath else resolvedPath)
        else if part \<noteq> ''.'' \<and> part \<noteq> '''' then resolvedPath @ [part]
        else resolvedPath)
       rest"

definition newPathParts :: "string list \<Rightarrow> string \<Rightarrow> string list" where
  "newPathParts cur arg =
     (if startsWithTilde arg then splitOn CHR ''/'' arg else cur @ splitOn CHR ''/'' arg)"

definition displayPath :: "string list \<Rightarrow> string" where
  "displayPath cur =
     (if length cur = 1 then ''~'' else ''~/'' @ joinWith ''/'' (drop 1 cur))"

text \<open>
  The second half of \<^verbatim>\<open>handleCd\<close>, after \<^verbatim>\<open>currentPath\<close> is assigned: the prompt is
  rewritten and the chat session is created again. \<open>createOk\<close> tells whether this call
  of \<^verbatim>\<open>ai.chats.create\<close> returns (otherwise it throws, and the handler reports it).
\<close>

definition updateUI :: "bool \<Rightarrow> state \<Rightarrow> state" where
  "updateUI createOk s =
     (let s1 = s\<lparr>promptText := ''user@gemini:'' @ displayPath (currentPath s) @ ''$''\<rparr>
      in if createOk then
           s1\<lparr>chat := \<lparr>chatId = chatsCreated s1,
                        instructionPath = joinWith ''/'' (currentPath s1)\<rparr>,
              chatsCreated := Suc (chatsCreated s1)\<rparr>
         else
           appendToTerminal
             ''Error: Failed to update context for new directory. Terminal may not respond correctly.''
             LogError s1)"

text \<open>
  \<^verbatim>\<open>handleCd\<close>. The first component is the exception that leaves the call, if any; the
  globals keep the values they had when it was thrown.
\<close>

definition handleCd :: "bool \<Rightarrow> string \<Rightarrow> state \<Rightarrow> exn option \<times> state" where
  "handleCd createOk arg s =
     (if arg = '''' \<or> arg = ''~'' then (None, updateUI createOk (s\<lparr>currentPath := [''~'']\<rparr>))
      else
        (let resolvedPath = resolveParts [] (newPathParts (currentPath s) arg) in
         case getDirectory resolvedPath of
           Thrown e \<Rightarrow> (Some e, s)
         | NullResult \<Rightarrow>
             (None, appendToTerminal (''bash: cd: '' @ arg @ '': No such file or directory'')
                      LogError s)
         | Value targetDir \<Rightarrow>
             if truthy targetDir \<and> typeIsDir targetDir
             then (None, updateUI createOk (s\<lparr>currentPath := resolvedPath\<rparr>))
             else (None, appendToTerminal
                           (''bash: cd: '' @ arg @ '': No such file or directory'')
                           LogError s)))"

text \<open>
  The outcome of the resolution that \<^verbatim>\<open>handleCd\<close> performs before it touches any
  state: the path it is about to commit, the failure it is about to report, or the
  exception that escapes from \<^verbatim>\<open>getDirectory\<close>.
\<close>

datatype resolution = Resolved "string list" | NotFound | Crashed exn

definition isDirectory :: "result \<Rightarrow> bool" where
  "isDirectory r = (case r of Value v \<Rightarrow> truthy v \<and> typeIsDir v | _ \<Rightarrow> False)"

definition resolve :: "string list \<Rightarrow> string \<Rightarrow> resolution" where
  "resolve cur arg =
     (if arg = '''' \<or> arg = ''~'' then Resolved [''~'']
      else
        (let resolvedPath = resolveParts [] (newPathParts cur arg) in
         case getDirectory resolvedPath of
           Thrown e \<Rightarrow> Crashed e
         | r \<Rightarrow> if isDirectory r then Resolved resolvedPath else NotFound))"

text \<open>
  The invariant of \<^verbatim>\<open>currentPath\<close>: it starts with \<^verbatim>\<open>'~'\<close>, and the tree walk
  along each of its non-empty prefixes ends at a directory node. (The walk along no
  segment at all stays at the \<^verbatim>\<open>fileSystem\<close> object, which holds the root and is not
  a node.)
\<close>

definition pathInvariant :: "string list \<Rightarrow> bool" where
  "pathInvariant p \<longleftrightarrow>
     (case p of [] \<Rightarrow> False | first # _ \<Rightarrow> first = ''~'') \<and>
     (\<forall>q \<in> set (prefixes p). q \<noteq> [] \<longrightarrow> isDirectory (getDirectory q))"

section \<open>Commands sent to the chat session\<close>

text \<open>
  How \<^verbatim>\<open>await chat.sendMessage(...)\<close> settles: with a response whose \<^verbatim>\<open>text\<close> is a
  string or \<^verbatim>\<open>undefined\<close>, with a rejection whose reason has the given \<^verbatim>\<open>message\<close>,
  or with a rejection whose reason is \<^verbatim>\<open>null\<close> or \<^verbatim>\<open>undefined\<close> (reading its
  \<^verbatim>\<open>message\<close> in the catch block throws).
\<close>

datatype sendResult = Replied "string option" | Failed string | FailedNullish

text \<open>The \<^verbatim>\<open>try\<close>/\<^verbatim>\<open>catch\<close>/\<^verbatim>\<open>finally\<close> of \<^verbatim>\<open>runCommand\<close>.\<close>

fun awaitResponse :: "sendResult \<Rightarrow> state \<Rightarrow> exn option \<times> state" where
  "awaitResponse (Replied txt) s =
     (None, (case txt of
               Some t \<Rightarrow> if t \<noteq> '''' then appendToTerminal t LogResponse s else s
             | None \<Rightarrow> s)\<lparr>inputDisabled := False\<rparr>)"
| "awaitResponse (Failed msg) s =
     (None, (appendToTerminal (''Error: '' @ msg) LogError s)\<lparr>inputDisabled := False\<rparr>)"
| "awaitResponse FailedNullish s = (Some TypeError, s\<lparr>inputDisabled := False\<rparr>)"

text \<open>The state in which the request is in flight.\<close>

definition requestSent :: "string \<Rightarrow> state \<Rightarrow> state" where
  "requestSent trimmedCommand s =
     (appendToTerminal trimmedCommand LogCommand s)\<lparr>inputValue := '''', inputDisabled := True\<rparr>"

definition runCommand :: "bool \<Rightarrow> sendResult \<Rightarrow> string \<Rightarrow> state \<Rightarrow> exn option \<times> state" where
  "runCommand createOk reply command s =
     (let trimmedCommand = trim command in
      if trimmedCommand = '''' then (None, s)
      else
        (case splitWhitespace trimmedCommand of
           cmd # args \<Rightarrow>
             if cmd = ''cd''
             then handleCd createOk (joinWith '' '' args)
                    ((appendToTerminal trimmedCommand LogCommand s)\<lparr>inputValue := ''''\<rparr>)
             else awaitResponse reply (requestSent trimmedCommand s)
         | [] \<Rightarrow> awaitResponse reply (requestSent trimmedCommand s)))"

text \<open>
  The states of a session: it starts at \<^verbatim>\<open>['~']\<close>, and every command line moves it on,
  whatever the collaborator answers and whether or not an exception escapes.
\<close>

inductive reachable :: "state \<Rightarrow> bool" where
  start: "currentPath s = [''~''] \<Longrightarrow> reachable s"
| step: "reachable s \<Longrightarrow> reachable (snd (runCommand createOk reply command s))"


text \<open>
  The state \<^verbatim>\<open>main\<close> leaves behind when the chat was initialised: the two start-up lines
  are on the terminal, the first session was created for \<^verbatim>\<open>'~'\<close>, and the input is
  enabled. The prompt's first text comes from the page, so it is a parameter.
\<close>

definition sessionStart :: "string \<Rightarrow> state" where
  "sessionStart prompt =
     \<lparr>currentPath = [''~''],
      chat = \<lparr>chatId = 0, instructionPath = ''~''\<rparr>,
      chatsCreated = 1,
      terminalOutput =
        [(LogResponse, ''Initializing AI Tutor...''),
         (LogResponse, ''AI Tutor initialized. Start by typing a command or clicking a bubble.'')],
      promptText = prompt,
      inputValue = '''',
      inputDisabled = False\<rparr>"

text \<open>
  Command lines as a user types them: each word comes after a non-empty run of white
  space, and no word contains white space.
\<close>

definition wellSpaced :: "(string \<times> string) list \<Rightarrow> bool" where
  "wellSpaced xs \<longleftrightarrow>
     (\<forall>(sep, tok) \<in> set xs. sep \<noteq> [] \<and> (\<forall>c \<in> set sep. isWhitespace c) \<and>
                            tok \<noteq> [] \<and> (\<forall>c \<in> set tok. \<not> isWhitespace c))"

definition spaced :: "(string \<times> string) list \<Rightarrow> string" where
  "spaced xs = concat (map (\<lambda>(sep, tok). sep @ tok) xs)"

section \<open>The tree walk\<close>

lemma walk_append:
  "walk lvl (ps @ qs) = (case walk lvl ps of Value v \<Rightarrow> walk v qs | r \<Rightarrow> r)"
  by (induction ps arbitrary: lvl)
     (auto split: result.splits jsval.splits node.splits)

lemma member_not_root [simp]: "member cs k \<noteq> FsRoot"
  by (simp add: member_def split: option.splits)

lemma readHome_not_root [simp]: "readHome v \<noteq> Value FsRoot"
  by (cases v) simp_all

text \<open>Only the walk along no segment ends at the \<^verbatim>\<open>fileSystem\<close> object.\<close>

lemma walk_root_only: "walk lvl ps = Value FsRoot \<Longrightarrow> lvl = FsRoot \<and> ps = []"
proof (induction ps arbitrary: lvl)
  case Nil
  then show ?case by simp
next
  case (Cons p ps)
  show ?case
  proof (cases "p = ''~''")
    case True
    with Cons.prems obtain v where "readHome lvl = Value v" "walk v ps = Value FsRoot"
      by (auto split: result.splits)
    with Cons.IH have "v = FsRoot" by blast
    with \<open>readHome lvl = Value v\<close> show ?thesis by simp
  next
    case False
    with Cons.prems obtain cs where "walk (member cs p) ps = Value FsRoot"
      by (auto split: jsval.splits node.splits if_splits)
    with Cons.IH have "member cs p = FsRoot" by blast
    then show ?thesis by simp
  qed
qed

lemma walk_last_dir:
  "walk v [p] = Value (Node (Dir cs)) \<Longrightarrow> v = FsRoot \<or> (\<exists>cs'. v = Node (Dir cs'))"
  by (cases v) (auto split: if_splits node.splits)

text \<open>A walk that ends at a directory passed through directories only.\<close>

lemma walk_prefix_dir:
  "walk FsRoot (ps @ qs) = Value (Node (Dir cs)) \<Longrightarrow> ps \<noteq> [] \<Longrightarrow>
   \<exists>cs'. walk FsRoot ps = Value (Node (Dir cs'))"
proof (induction qs arbitrary: cs rule: rev_induct)
  case Nil
  then show ?case by simp
next
  case (snoc q qs)
  from snoc.prems(1) have "walk FsRoot ((ps @ qs) @ [q]) = Value (Node (Dir cs))" by simp
  then obtain v where v: "walk FsRoot (ps @ qs) = Value v" "walk v [q] = Value (Node (Dir cs))"
    unfolding walk_append [of FsRoot "ps @ qs" "[q]"] by (auto split: result.splits)
  from walk_last_dir [OF v(2)] show ?case
  proof
    assume "v = FsRoot"
    with v(1) walk_root_only have "ps @ qs = []" by blast
    with snoc.prems(2) show ?thesis by simp
  next
    assume "\<exists>cs'. v = Node (Dir cs')"
    with v(1) snoc.IH snoc.prems(2) show ?thesis by blast
  qed
qed

lemma isDirectory_iff: "isDirectory r \<longleftrightarrow> (\<exists>cs. r = Value (Node (Dir cs)))"
  by (auto simp: isDirectory_def split: result.splits elim: typeIsDir.elims)

lemma walk_undefined: "walk Undefined ps \<noteq> Value (Node n)"
  by (cases ps) (auto split: if_splits)

lemma walk_inherited: "walk Inherited ps \<noteq> Value (Node n)"
  by (cases ps) (auto simp: walk_undefined)

lemma walk_file: "walk (Node File) ps \<noteq> Value (Node (Dir cs))"
  by (cases ps) (auto simp: walk_undefined)

lemma getDirectory_hd: "isDirectory (getDirectory p) \<Longrightarrow> \<exists>rest. p = ''~'' # rest"
  by (cases p) (auto simp: isDirectory_iff getDirectory_def split: if_splits)

lemma walk_leaf_dir:
  assumes "\<forall>n \<in> snd ` set cs. n = File"
    and "walk (Node (Dir cs)) ps = Value (Node (Dir cs'))"
  shows "ps = []"
proof (cases ps)
  case Nil
  then show ?thesis .
next
  case (Cons p rest)
  show ?thesis
  proof (cases "map_of cs p")
    case None
    with assms(2) Cons show ?thesis
      by (auto simp: member_def walk_undefined walk_inherited split: if_splits)
  next
    case (Some n)
    then have "n \<in> snd ` set cs" by (force dest: map_of_SomeD)
    with assms(1) have "n = File" by blast
    with assms(2) Cons Some show ?thesis
      by (auto simp: member_def walk_undefined walk_file split: if_splits)
  qed
qed

text \<open>The seeded tree has four directories.\<close>

lemma dir_paths:
  assumes "isDirectory (getDirectory p)"
  shows "p \<in> {[''~''], [''~'', ''documents''], [''~'', ''images''], [''~'', ''music'']}"
proof -
  from assms obtain cs where cs: "walk FsRoot p = Value (Node (Dir cs))"
    by (auto simp: isDirectory_iff getDirectory_def)
  from getDirectory_hd [OF assms] obtain rest where p: "p = ''~'' # rest" by blast
  show ?thesis
  proof (cases rest)
    case Nil
    with p show ?thesis by simp
  next
    case (Cons q qs)
    from cs p Cons have q: "q \<noteq> ''~''"
      by (auto simp: fileSystem_def member_def walk_undefined)
    from cs p Cons q have "q = ''documents'' \<or> q = ''images'' \<or> q = ''music''"
      by (auto simp: fileSystem_def member_def walk_undefined walk_inherited walk_file
               split: if_splits)
    moreover have "qs = []"
      using cs p Cons q
      by (auto simp: fileSystem_def member_def walk_undefined walk_inherited walk_file
               split: if_splits dest!: walk_leaf_dir [rotated])
    ultimately show ?thesis using p Cons by auto
  qed
qed

lemma pathInvariant_iff: "pathInvariant p \<longleftrightarrow> isDirectory (getDirectory p)"
proof
  assume "pathInvariant p"
  then show "isDirectory (getDirectory p)"
    by (cases p) (auto simp: pathInvariant_def in_set_prefixes)
next
  assume d: "isDirectory (getDirectory p)"
  from getDirectory_hd [OF d] obtain rest where p: "p = ''~'' # rest" by blast
  have "isDirectory (getDirectory q)" if "prefix q p" "q \<noteq> []" for q
  proof -
    from that(1) obtain r where "p = q @ r" by (auto simp: prefix_def)
    with d that(2) walk_prefix_dir [of q r] show ?thesis
      by (auto simp: isDirectory_iff getDirectory_def)
  qed
  with p show "pathInvariant p"
    by (auto simp: pathInvariant_def in_set_prefixes)
qed

section \<open>What a cd does to the state\<close>

lemma handleCd_resolve:
  "handleCd createOk arg s =
     (case resolve (currentPath s) arg of
        Resolved p \<Rightarrow> (None, updateUI createOk (s\<lparr>currentPath := p\<rparr>))
      | NotFound \<Rightarrow>
          (None, appendToTerminal (''bash: cd: '' @ arg @ '': No such file or directory'')
                   LogError s)
      | Crashed e \<Rightarrow> (Some e, s))"
  by (auto simp: handleCd_def resolve_def isDirectory_def Let_def split: result.splits)

lemma resolve_Resolved: "resolve cur arg = Resolved p \<Longrightarrow> pathInvariant p"
  unfolding pathInvariant_iff
  by (auto simp: resolve_def Let_def isDirectory_def getDirectory_def fileSystem_def member_def
           split: if_splits result.splits)

lemma currentPath_updateUI [simp]: "currentPath (updateUI c s) = currentPath s"
  by (simp add: updateUI_def Let_def appendToTerminal_def)

lemma currentPath_appendToTerminal [simp]: "currentPath (appendToTerminal t ty s) = currentPath s"
  by (simp add: appendToTerminal_def)

lemma currentPath_awaitResponse [simp]: "currentPath (snd (awaitResponse r s)) = currentPath s"
  by (cases r) (auto split: option.splits)

lemma currentPath_handleCd:
  "currentPath (snd (handleCd c arg s)) =
     (case resolve (currentPath s) arg of Resolved p \<Rightarrow> p | _ \<Rightarrow> currentPath s)"
  by (simp add: handleCd_resolve split: resolution.splits)

text \<open>
  \<^verbatim>\<open>currentPath\<close> is assigned in \<^verbatim>\<open>handleCd\<close> only, and only a path that resolved.
\<close>

lemma currentPath_runCommand:
  "currentPath (snd (runCommand c r cmd s)) = currentPath s \<or>
   (\<exists>arg p. resolve (currentPath s) arg = Resolved p \<and>
            currentPath (snd (runCommand c r cmd s)) = p)"
  by (auto simp: runCommand_def Let_def requestSent_def currentPath_handleCd
           split: list.splits resolution.splits)

lemma reachable_pathInvariant: "reachable s \<Longrightarrow> pathInvariant (currentPath s)"
proof (induction rule: reachable.induct)
  case (start s)
  then show ?case
    by (simp add: pathInvariant_def getDirectory_def isDirectory_def fileSystem_def member_def)
next
  case (step s createOk reply command)
  from currentPath_runCommand [of createOk reply command s] step.IH show ?case
    by (auto dest: resolve_Resolved)
qed

text \<open>An exception that escapes from the walk leaves every global as it was.\<close>

lemma crashed_cd_keeps_state:
  "resolve (currentPath s) arg = Crashed e \<Longrightarrow> handleCd createOk arg s = (Some e, s)"
  by (simp add: handleCd_resolve)

lemma inputDisabled_awaitResponse: "\<not> inputDisabled (snd (awaitResponse reply s))"
  by (cases reply) simp_all

text \<open>The walk throws only at a \<^verbatim>\<open>'~'\<close> segment.\<close>

lemma walk_no_home_no_throw: "''~'' \<notin> set ps \<Longrightarrow> walk lvl ps \<noteq> Thrown e"
  by (induction ps arbitrary: lvl) (auto split: jsval.splits node.splits)

lemma getDirectory_no_inner_home_no_throw:
  "''~'' \<notin> set (tl ps) \<Longrightarrow> getDirectory ps \<noteq> Thrown e"
  by (cases ps)
     (auto simp: getDirectory_def fileSystem_def member_def walk_no_home_no_throw
           split: jsval.splits node.splits)

section \<open>The accumulation loop\<close>

lemma resolveParts_append:
  "resolveParts acc (ps @ qs) = resolveParts (resolveParts acc ps) qs"
  by (induction ps arbitrary: acc) simp_all

lemma resolveParts_ignored:
  "\<forall>p \<in> set ps. p = ''.'' \<or> p = '''' \<Longrightarrow> resolveParts acc ps = acc"
  by (induction ps arbitrary: acc) auto


lemma resolveParts_filter:
  "resolveParts acc ps = resolveParts acc (filter (\<lambda>p. p \<noteq> ''.'' \<and> p \<noteq> '''') ps)"
  by (induction ps arbitrary: acc) auto


text \<open>The first accumulated segment is never popped.\<close>

lemma resolveParts_first:
  "\<exists>rest. resolveParts (first # xs) ps = first # rest"
proof (induction ps arbitrary: xs)
  case Nil
  then show ?case by simp
next
  case (Cons p ps)
  have "butlast (first # xs) = first # butlast xs" if "xs \<noteq> []"
    using that by simp
  with Cons [of xs] Cons [of "butlast xs"] Cons [of "xs @ [p]"] show ?case
    by (cases "xs = []") auto
qed

lemma resolveParts_current:
  "isDirectory (getDirectory p) \<Longrightarrow> resolveParts [] p = p"
  by (drule dir_paths) auto

section \<open>Single commands from a known directory\<close>

lemma cd_music: "currentPath s = [''~''] \<Longrightarrow>
  runCommand c r ''cd music'' s =
    (None, updateUI c ((appendToTerminal ''cd music'' LogCommand s)
                         \<lparr>inputValue := '''', currentPath := [''~'', ''music'']\<rparr>))"
  by (simp add: runCommand_def trim_def isWhitespace_def handleCd_resolve resolve_def
                newPathParts_def getDirectory_def isDirectory_def fileSystem_def member_def)

lemma cd_up: "currentPath s = [''~'', ''music''] \<Longrightarrow>
  runCommand c r ''cd ..'' s =
    (None, updateUI c ((appendToTerminal ''cd ..'' LogCommand s)
                         \<lparr>inputValue := '''', currentPath := [''~'']\<rparr>))"
  by (simp add: runCommand_def trim_def isWhitespace_def handleCd_resolve resolve_def
                newPathParts_def getDirectory_def isDirectory_def fileSystem_def member_def)

lemma cd_images: "currentPath s = [''~''] \<Longrightarrow>
  runCommand c r ''cd images'' s =
    (None, updateUI c ((appendToTerminal ''cd images'' LogCommand s)
                         \<lparr>inputValue := '''', currentPath := [''~'', ''images'']\<rparr>))"
  by (simp add: runCommand_def trim_def isWhitespace_def handleCd_resolve resolve_def
                newPathParts_def getDirectory_def isDirectory_def fileSystem_def member_def)

lemma chatsCreated_updateUI:
  "chatsCreated (updateUI c s) = chatsCreated s + (if c then 1 else 0)"
  by (simp add: updateUI_def Let_def appendToTerminal_def)

lemma chatsCreated_appendToTerminal [simp]:
  "chatsCreated (appendToTerminal t ty s) = chatsCreated s"
  by (simp add: appendToTerminal_def)

lemma chat_updateUI_failed [simp]: "chat (updateUI False s) = chat s"
  by (simp add: updateUI_def Let_def appendToTerminal_def)

lemma reachable_images:
  "reachable (snd (runCommand True (Replied None) ''cd images'' (sessionStart ''user@gemini:~$'')))"
  by (rule reachable.step, rule reachable.start) (simp add: sessionStart_def)

lemma currentPath_images:
  "currentPath (snd (runCommand True (Replied None) ''cd images'' (sessionStart ''user@gemini:~$'')))
     = [''~'', ''images'']"
  by (simp add: cd_images sessionStart_def)

section \<open>Splitting a command line into words\<close>

lemma splitWhitespace_nonempty [simp]: "splitWhitespace s \<noteq> []"
  by (induction s rule: splitWhitespace.induct) (auto split: list.splits)

lemma splitWhitespace_token:
  "\<forall>c \<in> set t. \<not> isWhitespace c \<Longrightarrow>
   splitWhitespace (t @ R) = (case splitWhitespace R of u # us \<Rightarrow> (t @ u) # us | [] \<Rightarrow> [t])"
  by (induction t) (auto split: list.splits)

lemma dropWhile_stop: "R = [] \<or> \<not> P (hd R) \<Longrightarrow> dropWhile P R = R"
  by (cases R) auto

lemma splitWhitespace_sep:
  assumes "sep \<noteq> []" "\<forall>c \<in> set sep. isWhitespace c" "R = [] \<or> \<not> isWhitespace (hd R)"
  shows "splitWhitespace (sep @ R) = [] # splitWhitespace R"
proof -
  from assms(1) obtain c cs where sep: "sep = c # cs" by (cases sep) auto
  with assms(2) have "dropWhile isWhitespace (cs @ R) = dropWhile isWhitespace R"
    by (simp add: dropWhile_append2)
  with assms(3) have "dropWhile isWhitespace (cs @ R) = R" by (simp add: dropWhile_stop)
  with sep assms(2) show ?thesis by simp
qed

lemma spaced_simps [simp]:
  "spaced [] = []" "spaced ((sep, tok) # xs) = sep @ tok @ spaced xs"
  by (simp_all add: spaced_def)

lemma wellSpaced_Cons:
  "wellSpaced ((sep, tok) # xs) \<longleftrightarrow>
     sep \<noteq> [] \<and> (\<forall>c \<in> set sep. isWhitespace c) \<and> tok \<noteq> [] \<and>
     (\<forall>c \<in> set tok. \<not> isWhitespace c) \<and> wellSpaced xs"
  by (auto simp: wellSpaced_def)

lemma splitWhitespace_spaced:
  "wellSpaced xs \<Longrightarrow> \<forall>c \<in> set t. \<not> isWhitespace c \<Longrightarrow>
   splitWhitespace (t @ spaced xs) = t # map snd xs"
proof (induction xs arbitrary: t)
  case Nil
  then show ?case using splitWhitespace_token [of t "[]"] by simp
next
  case (Cons x xs)
  obtain sep tok where x: "x = (sep, tok)" by (cases x)
  from Cons.prems(1) x have w: "sep \<noteq> []" "\<forall>c \<in> set sep. isWhitespace c" "tok \<noteq> []"
    "\<forall>c \<in> set tok. \<not> isWhitespace c" "wellSpaced xs"
    by (simp_all add: wellSpaced_Cons)
  from w(3,4) have "tok @ spaced xs = [] \<or> \<not> isWhitespace (hd (tok @ spaced xs))"
    by (cases tok) auto
  from splitWhitespace_sep [OF w(1,2) this] Cons.IH [OF w(5,4)]
  have "splitWhitespace (sep @ tok @ spaced xs) = [] # tok # map snd xs" by simp
  with splitWhitespace_token [OF Cons.prems(2), of "sep @ tok @ spaced xs"] x
  show ?case by simp
qed

lemma last_spaced:
  "wellSpaced xs \<Longrightarrow> t \<noteq> [] \<Longrightarrow> \<not> isWhitespace (last t) \<Longrightarrow>
   \<not> isWhitespace (last (t @ spaced xs))"
proof (induction xs arbitrary: t)
  case Nil
  then show ?case by simp
next
  case (Cons x xs)
  obtain sep tok where x: "x = (sep, tok)" by (cases x)
  from Cons.prems(1) x have w: "tok \<noteq> []" "\<forall>c \<in> set tok. \<not> isWhitespace c" "wellSpaced xs"
    by (simp_all add: wellSpaced_Cons)
  from w(1,2) have "\<not> isWhitespace (last (t @ sep @ tok))" by simp
  with Cons.IH [OF w(3), of "t @ sep @ tok"] w(1) x show ?case by simp
qed

lemma trim_padded:
  assumes "body \<noteq> []" "\<not> isWhitespace (hd body)" "\<not> isWhitespace (last body)"
    and "\<forall>c \<in> set pre. isWhitespace c" "\<forall>c \<in> set post. isWhitespace c"
  shows "trim (pre @ body @ post) = body"
proof -
  from assms(4)
  have "dropWhile isWhitespace (pre @ body @ post) = dropWhile isWhitespace (body @ post)"
    by (simp add: dropWhile_append2)
  also from assms(1,2) have "\<dots> = body @ post" by (simp add: dropWhile_stop)
  finally have 1: "dropWhile isWhitespace (pre @ body @ post) = body @ post" .
  from assms(5)
  have "dropWhile isWhitespace (rev post @ rev body) = dropWhile isWhitespace (rev body)"
    by (intro dropWhile_append2) simp
  also from assms(1,3) have "\<dots> = rev body" by (simp add: dropWhile_stop hd_rev)
  finally show ?thesis by (simp add: trim_def 1)
qed

section \<open>A cd that fails\<close>

text \<open>
  When the walk inside \<^verbatim>\<open>handleCd\<close> returns without a directory (it returned
  \<^verbatim>\<open>null\<close>, a file, or any other value that is not a directory node),
  \<^verbatim>\<open>handleCd\<close> appends the line \<^verbatim>\<open>bash: cd: ARG: No such file or directory\<close> with the
  argument as it was given, and the state is otherwise the one before the call.
  Whenever the resolution does not end at a directory, in whatever way,
  \<^verbatim>\<open>currentPath\<close>, the chat session, the number of sessions created and the prompt are
  the ones before the call.
\<close>

lemma not_found_cd_reports_and_keeps_state:
  "(resolve (currentPath s) arg = NotFound \<longrightarrow>
      handleCd createOk arg s =
        (None, s\<lparr>terminalOutput := terminalOutput s @
                  [(LogError, ''bash: cd: '' @ arg @ '': No such file or directory'')]\<rparr>)) \<and>
   ((\<forall>p. resolve (currentPath s) arg \<noteq> Resolved p) \<longrightarrow>
      currentPath (snd (handleCd createOk arg s)) = currentPath s \<and>
      chat (snd (handleCd createOk arg s)) = chat s \<and>
      chatsCreated (snd (handleCd createOk arg s)) = chatsCreated s \<and>
      promptText (snd (handleCd createOk arg s)) = promptText s)"
  by (cases "resolve (currentPath s) arg")
     (simp_all add: handleCd_resolve appendToTerminal_def)

lemma not_found_cd_example:
  "resolve (currentPath ((sessionStart ''user@gemini:~$'')\<lparr>currentPath := [''~'', ''images'']\<rparr>))
     ''report.docx'' = NotFound \<and>
   handleCd True ''report.docx''
       ((sessionStart ''user@gemini:~$'')\<lparr>currentPath := [''~'', ''images'']\<rparr>) =
     (None, (sessionStart ''user@gemini:~$'')
              \<lparr>currentPath := [''~'', ''images''],
               terminalOutput :=
                 [(LogResponse, ''Initializing AI Tutor...''),
                  (LogResponse, ''AI Tutor initialized. Start by typing a command or clicking a bubble.''),
                  (LogError, ''bash: cd: report.docx: No such file or directory'')]\<rparr>)"
proof -
  let ?s = "(sessionStart ''user@gemini:~$'')\<lparr>currentPath := [''~'', ''images'']\<rparr>"
  have h: "resolve (currentPath ?s) ''report.docx'' = NotFound"
    by (simp add: resolve_def newPathParts_def getDirectory_def isDirectory_def
                  fileSystem_def member_def objectPrototypeKeys_def)
  from not_found_cd_reports_and_keeps_state [of ?s "''report.docx''" True] h
  show ?thesis by (simp add: sessionStart_def)
qed

text \<open>
  Claim C1 says that every cd whose resolution fails reports
  \<^verbatim>\<open>No such file or directory\<close> with the argument and leaves the session state as it
  was. The state is left as it was, but the report is missing where the walk throws: at
  the command line \<^verbatim>\<open>cd documents/~/~\<close> from \<^verbatim>\<open>['~']\<close> the segment \<^verbatim>\<open>'~'\<close> is not
  a child of \<^verbatim>\<open>documents\<close>, the resolution ends in a TypeError instead of a result,
  and \<^verbatim>\<open>handleCd\<close> is left before it writes any line: the terminal holds the echoed
  command and nothing after it.
\<close>

theorem failed_cd_crash_writes_no_error:
  "resolve (currentPath (sessionStart ''user@gemini:~$'')) ''documents/~/~'' = Crashed TypeError \<and>
   terminalOutput (snd (handleCd True ''documents/~/~'' (sessionStart ''user@gemini:~$''))) =
     terminalOutput (sessionStart ''user@gemini:~$'') \<and>
   runCommand True (Replied None) ''cd documents/~/~'' (sessionStart ''user@gemini:~$'') =
     (Some TypeError,
      (sessionStart ''user@gemini:~$'')
        \<lparr>terminalOutput :=
           [(LogResponse, ''Initializing AI Tutor...''),
            (LogResponse, ''AI Tutor initialized. Start by typing a command or clicking a bubble.''),
            (LogCommand, ''user@gemini:~$ cd documents/~/~'')]\<rparr>)"
  by (simp add: runCommand_def trim_def isWhitespace_def handleCd_def resolve_def
                newPathParts_def getDirectory_def isDirectory_def fileSystem_def member_def
                sessionStart_def appendToTerminal_def)

section \<open>Three commands, three sessions\<close>

text \<open>
  Claim C2 as stated: from \<^verbatim>\<open>['~']\<close>, after \<^verbatim>\<open>cd music\<close>, \<^verbatim>\<open>cd ..\<close> and
  \<^verbatim>\<open>cd music\<close> the chat session has been created again exactly twice. From the start
  of a session, with every creation succeeding, the path does end at
  \<^verbatim>\<open>['~', 'music']\<close>, but three sessions have been created since, not two.
\<close>

theorem regenerated_twice_counterexample:
  "currentPath (snd (runCommand True (Replied None) ''cd music''
           (snd (runCommand True (Replied None) ''cd ..''
             (snd (runCommand True (Replied None) ''cd music''
                (sessionStart ''user@gemini:~$''))))))) = [''~'', ''music''] \<and>
   chatsCreated (snd (runCommand True (Replied None) ''cd music''
           (snd (runCommand True (Replied None) ''cd ..''
             (snd (runCommand True (Replied None) ''cd music''
                (sessionStart ''user@gemini:~$''))))))) =
     chatsCreated (sessionStart ''user@gemini:~$'') + 3 \<and>
   chatsCreated (snd (runCommand True (Replied None) ''cd music''
           (snd (runCommand True (Replied None) ''cd ..''
             (snd (runCommand True (Replied None) ''cd music''
                (sessionStart ''user@gemini:~$''))))))) \<noteq>
     chatsCreated (sessionStart ''user@gemini:~$'') + 2"
  by (simp add: cd_music cd_up chatsCreated_updateUI sessionStart_def)

text \<open>
  Claim C2, amended. From any state at \<^verbatim>\<open>['~']\<close>, the three commands leave
  \<^verbatim>\<open>currentPath\<close> at \<^verbatim>\<open>['~', 'music']\<close>, and each of them is a successful navigation
  that calls \<^verbatim>\<open>ai.chats.create\<close>: the number of sessions created grows by one for each
  call that returns, so by three when all of them do.
\<close>

theorem three_cds_regenerate_three_times:
  assumes "currentPath s = [''~'']"
  shows "currentPath (snd (runCommand c3 r3 ''cd music''
           (snd (runCommand c2 r2 ''cd ..'' (snd (runCommand c1 r1 ''cd music'' s)))))) =
           [''~'', ''music''] \<and>
         chatsCreated (snd (runCommand c3 r3 ''cd music''
           (snd (runCommand c2 r2 ''cd ..'' (snd (runCommand c1 r1 ''cd music'' s)))))) =
           chatsCreated s + (if c1 then 1 else 0) + (if c2 then 1 else 0) + (if c3 then 1 else 0)"
  using assms by (simp add: cd_music cd_up chatsCreated_updateUI)

theorem three_cds_regenerate_three_times_witness:
  "currentPath (sessionStart ''user@gemini:~$'') = [''~''] \<and>
   currentPath (snd (runCommand True (Replied None) ''cd music''
           (snd (runCommand True (Replied None) ''cd ..''
             (snd (runCommand True (Replied None) ''cd music''
                (sessionStart ''user@gemini:~$''))))))) = [''~'', ''music''] \<and>
   chatsCreated (snd (runCommand True (Replied None) ''cd music''
           (snd (runCommand True (Replied None) ''cd ..''
             (snd (runCommand True (Replied None) ''cd music''
                (sessionStart ''user@gemini:~$''))))))) = 4"
proof -
  have h: "currentPath (sessionStart ''user@gemini:~$'') = [''~'']"
    by (simp add: sessionStart_def)
  from three_cds_regenerate_three_times
         [OF h, of True "Replied None" True "Replied None" True "Replied None"] h
  show ?thesis by (simp add: sessionStart_def)
qed

section \<open>The walk can throw\<close>

text \<open>
  Claim C3 says that the tree walk never throws. At \<^verbatim>\<open>cd documents/~/~\<close> from
  \<^verbatim>\<open>['~']\<close> it does: the first \<^verbatim>\<open>'~'\<close> after \<^verbatim>\<open>documents\<close> reads the property
  \<^verbatim>\<open>'~'\<close> of a directory node, which is \<^verbatim>\<open>undefined\<close>, and the second reads a property
  of \<^verbatim>\<open>undefined\<close>. The TypeError leaves \<^verbatim>\<open>getDirectory\<close> and \<^verbatim>\<open>handleCd\<close>; no
  error line is written and the state stays as it was.
\<close>

theorem getDirectory_throws_on_repeated_home:
  "getDirectory [''~'', ''documents'', ''~'', ''~''] = Thrown TypeError \<and>
   resolveParts [] (newPathParts [''~''] ''documents/~/~'') =
     [''~'', ''documents'', ''~'', ''~''] \<and>
   resolve [''~''] ''documents/~/~'' = Crashed TypeError \<and>
   handleCd True ''documents/~/~'' (sessionStart ''user@gemini:~$'') =
     (Some TypeError, sessionStart ''user@gemini:~$'')"
  by (simp add: handleCd_def resolve_def newPathParts_def getDirectory_def isDirectory_def
                fileSystem_def member_def sessionStart_def)

section \<open>The invariant of the current path\<close>

text \<open>
  Claim C4. In every state a session reaches, \<^verbatim>\<open>currentPath\<close> begins with \<^verbatim>\<open>'~'\<close>
  and the tree walk along each of its non-empty prefixes returns a directory node; so
  \<^verbatim>\<open>currentPath\<close> itself names a directory, never a file or a missing entry.
\<close>

theorem currentPath_invariant:
  assumes "reachable s"
  shows "(\<exists>rest. currentPath s = ''~'' # rest) \<and>
         (\<forall>q. prefix q (currentPath s) \<and> q \<noteq> [] \<longrightarrow>
              (\<exists>children. getDirectory q = Value (Node (Dir children))))"
proof -
  from reachable_pathInvariant [OF assms] have inv: "pathInvariant (currentPath s)" .
  then have "\<exists>rest. currentPath s = ''~'' # rest"
    by (auto simp: pathInvariant_def split: list.splits)
  moreover from inv have "\<forall>q. prefix q (currentPath s) \<and> q \<noteq> [] \<longrightarrow>
      (\<exists>children. getDirectory q = Value (Node (Dir children)))"
    by (auto simp: pathInvariant_def in_set_prefixes isDirectory_iff)
  ultimately show ?thesis by blast
qed

theorem currentPath_invariant_witness:
  "reachable (snd (runCommand True (Replied None) ''cd images'' (sessionStart ''user@gemini:~$''))) \<and>
   currentPath (snd (runCommand True (Replied None) ''cd images'' (sessionStart ''user@gemini:~$'')))
     = [''~'', ''images''] \<and>
   (\<exists>children. getDirectory [''~''] = Value (Node (Dir children))) \<and>
   (\<exists>children. getDirectory [''~'', ''images''] = Value (Node (Dir children)))"
proof -
  let ?s = "snd (runCommand True (Replied None) ''cd images'' (sessionStart ''user@gemini:~$''))"
  have p1: "prefix [''~''] (currentPath ?s) \<and> [''~''] \<noteq> ([] :: string list)"
    by (simp add: currentPath_images)
  have p2: "prefix [''~'', ''images''] (currentPath ?s) \<and>
            [''~'', ''images''] \<noteq> ([] :: string list)"
    by (simp add: currentPath_images)
  from currentPath_invariant [OF reachable_images] p1 p2 reachable_images currentPath_images
  show ?thesis by blast
qed

section \<open>Going up\<close>



section \<open>A session that cannot be re-created\<close>

text \<open>
  Claim C6. When a cd resolves to a directory and \<^verbatim>\<open>ai.chats.create\<close> then throws,
  \<^verbatim>\<open>handleCd\<close> returns normally with the new \<^verbatim>\<open>currentPath\<close> and the new prompt in
  place, the old chat session still installed, and the warning
  \<^verbatim>\<open>Error: Failed to update context for new directory. Terminal may not respond correctly.\<close>
  appended to the terminal.
\<close>

theorem context_sync_failure_keeps_navigation:
  assumes "resolve (currentPath s) arg = Resolved p"
  shows "handleCd False arg s =
           (None, s\<lparr>currentPath := p,
                     promptText := ''user@gemini:'' @ displayPath p @ ''$'',
                     terminalOutput := terminalOutput s @
                       [(LogError, ''Error: Failed to update context for new directory. Terminal may not respond correctly.'')]\<rparr>)"
  using assms by (simp add: handleCd_resolve updateUI_def appendToTerminal_def)

theorem context_sync_failure_keeps_navigation_witness:
  "resolve (currentPath (sessionStart ''user@gemini:~$'')) ''music'' = Resolved [''~'', ''music''] \<and>
   handleCd False ''music'' (sessionStart ''user@gemini:~$'') =
     (None, (sessionStart ''user@gemini:~$'')
              \<lparr>currentPath := [''~'', ''music''],
               promptText := ''user@gemini:~/music$'',
               terminalOutput :=
                 [(LogResponse, ''Initializing AI Tutor...''),
                  (LogResponse, ''AI Tutor initialized. Start by typing a command or clicking a bubble.''),
                  (LogError, ''Error: Failed to update context for new directory. Terminal may not respond correctly.'')]\<rparr>)"
proof -
  have h: "resolve (currentPath (sessionStart ''user@gemini:~$'')) ''music'' =
             Resolved [''~'', ''music'']"
    by (simp add: resolve_def newPathParts_def getDirectory_def isDirectory_def
                  fileSystem_def member_def sessionStart_def)
  from context_sync_failure_keeps_navigation [OF h] h show ?thesis
    by (simp add: sessionStart_def displayPath_def)
qed

section \<open>Resolving the current directory\<close>

text \<open>
  Claim C7. In every state a session reaches, resolving \<^verbatim>\<open>.\<close> against
  \<^verbatim>\<open>currentPath\<close> gives \<^verbatim>\<open>currentPath\<close> back, and \<^verbatim>\<open>cd .\<close> leaves it as it is. The
  same holds for every relative argument made of \<^verbatim>\<open>.\<close> and empty segments only (such
  as \<^verbatim>\<open>./\<close> or \<^verbatim>\<open>.//.\<close>): the accumulation skips those segments.
\<close>

theorem resolve_dot_is_identity:
  assumes "reachable s"
  shows "resolve (currentPath s) ''.'' = Resolved (currentPath s) \<and>
         currentPath (snd (handleCd c ''.'' s)) = currentPath s \<and>
         (\<forall>arg. arg \<noteq> '''' \<and> \<not> startsWithTilde arg \<and>
                (\<forall>seg \<in> set (splitOn CHR ''/'' arg). seg = ''.'' \<or> seg = '''') \<longrightarrow>
                resolve (currentPath s) arg = Resolved (currentPath s))"
proof -
  from reachable_pathInvariant [OF assms] have d: "isDirectory (getDirectory (currentPath s))"
    by (simp add: pathInvariant_iff)
  have gen: "resolve (currentPath s) arg = Resolved (currentPath s)"
    if "arg \<noteq> ''''" "\<not> startsWithTilde arg"
       "\<forall>seg \<in> set (splitOn CHR ''/'' arg). seg = ''.'' \<or> seg = ''''" for arg
  proof -
    from that(2) have "arg \<noteq> ''~''" by auto
    moreover have "resolveParts [] (newPathParts (currentPath s) arg) = currentPath s"
      using that(2,3) d
      by (simp add: newPathParts_def resolveParts_append resolveParts_current resolveParts_ignored)
    ultimately show ?thesis using that(1) d
      by (auto simp: resolve_def Let_def isDirectory_def split: result.splits)
  qed
  have dot: "resolve (currentPath s) ''.'' = Resolved (currentPath s)"
    by (rule gen) simp_all
  then have "currentPath (snd (handleCd c ''.'' s)) = currentPath s"
    by (simp add: currentPath_handleCd)
  with dot gen show ?thesis by blast
qed

theorem resolve_dot_is_identity_witness:
  "reachable (snd (runCommand True (Replied None) ''cd images'' (sessionStart ''user@gemini:~$''))) \<and>
   resolve [''~'', ''images''] ''.'' = Resolved [''~'', ''images''] \<and>
   currentPath (snd (handleCd True ''.''
      (snd (runCommand True (Replied None) ''cd images'' (sessionStart ''user@gemini:~$''))))) =
     [''~'', ''images''] \<and>
   resolve [''~'', ''images''] ''.//'' = Resolved [''~'', ''images'']"
proof -
  let ?s = "snd (runCommand True (Replied None) ''cd images'' (sessionStart ''user@gemini:~$''))"
  have a: "''.//'' \<noteq> '''' \<and> \<not> startsWithTilde ''.//'' \<and>
           (\<forall>seg \<in> set (splitOn CHR ''/'' ''.//''). seg = ''.'' \<or> seg = '''')"
    by simp
  from resolve_dot_is_identity [OF reachable_images, of True] a reachable_images
  show ?thesis unfolding currentPath_images by blast
qed

section \<open>The displayed path resolves to itself\<close>

text \<open>
  Claim C8. For a \<^verbatim>\<open>currentPath\<close> that satisfies the invariant, the displayed path
  (\<^verbatim>\<open>~\<close> alone for \<^verbatim>\<open>['~']\<close>, otherwise \<^verbatim>\<open>~/\<close> followed by the remaining segments
  joined with \<^verbatim>\<open>/\<close>) resolves against \<^verbatim>\<open>currentPath\<close> to \<^verbatim>\<open>currentPath\<close> itself, and
  a cd to it leaves \<^verbatim>\<open>currentPath\<close> as it is.
\<close>

theorem displayPath_roundtrip:
  assumes "pathInvariant (currentPath s)"
  shows "resolve (currentPath s) (displayPath (currentPath s)) = Resolved (currentPath s) \<and>
         currentPath (snd (handleCd c (displayPath (currentPath s)) s)) = currentPath s"
proof -
  from assms have "isDirectory (getDirectory (currentPath s))" by (simp add: pathInvariant_iff)
  from dir_paths [OF this]
  have "resolve (currentPath s) (displayPath (currentPath s)) = Resolved (currentPath s)"
    by (auto simp: resolve_def displayPath_def newPathParts_def getDirectory_def isDirectory_def
                   fileSystem_def member_def)
  then show ?thesis by (simp add: currentPath_handleCd)
qed

theorem displayPath_roundtrip_witness:
  "pathInvariant [''~'', ''documents''] \<and>
   displayPath [''~'', ''documents''] = ''~/documents'' \<and>
   resolve [''~'', ''documents''] ''~/documents'' = Resolved [''~'', ''documents''] \<and>
   currentPath (snd (handleCd True ''~/documents''
      ((sessionStart ''user@gemini:~$'')\<lparr>currentPath := [''~'', ''documents'']\<rparr>))) =
     [''~'', ''documents'']"
proof -
  let ?t = "(sessionStart ''user@gemini:~$'')\<lparr>currentPath := [''~'', ''documents'']\<rparr>"
  have inv: "pathInvariant (currentPath ?t)"
    by (simp add: pathInvariant_def getDirectory_def isDirectory_def fileSystem_def member_def)
  have d: "displayPath [''~'', ''documents''] = ''~/documents''"
    by (simp add: displayPath_def)
  from displayPath_roundtrip [OF inv, of True] inv d show ?thesis by simp
qed

section \<open>Commands sent to the chat session return to idle\<close>

text \<open>
  Claim C9. A command line that is not blank and whose first word is not \<^verbatim>\<open>cd\<close>
  disables the input while the request is in flight, and however the request settles
  (a response with text, a response with empty or no text, a rejection, or a rejection
  whose handling throws in the catch block) the \<^verbatim>\<open>finally\<close> block has enabled the input
  again when \<^verbatim>\<open>runCommand\<close> is done.
\<close>

theorem remote_command_returns_to_idle:
  assumes "trim command \<noteq> ''''" and "\<forall>args. splitWhitespace (trim command) \<noteq> ''cd'' # args"
  shows "runCommand createOk reply command s =
           awaitResponse reply (requestSent (trim command) s) \<and>
         inputDisabled (requestSent (trim command) s) \<and>
         \<not> inputDisabled (snd (runCommand createOk reply command s))"
  using assms
  by (auto simp: runCommand_def Let_def requestSent_def inputDisabled_awaitResponse
           split: list.splits)

theorem remote_command_returns_to_idle_witness:
  "trim '' ls -l '' \<noteq> '''' \<and>
   (\<forall>args. splitWhitespace (trim '' ls -l '') \<noteq> ''cd'' # args) \<and>
   runCommand True FailedNullish '' ls -l '' (sessionStart ''user@gemini:~$'') =
     awaitResponse FailedNullish
       (requestSent (trim '' ls -l '') (sessionStart ''user@gemini:~$'')) \<and>
   inputDisabled (requestSent (trim '' ls -l '') (sessionStart ''user@gemini:~$'')) \<and>
   \<not> inputDisabled (snd (runCommand True FailedNullish '' ls -l ''
                           (sessionStart ''user@gemini:~$'')))"
proof -
  have t: "trim '' ls -l '' = ''ls -l''" by (simp add: trim_def isWhitespace_def)
  have h1: "trim '' ls -l '' \<noteq> ''''" by (simp add: t)
  have h2: "\<forall>args. splitWhitespace (trim '' ls -l '') \<noteq> ''cd'' # args"
    by (simp add: t isWhitespace_def)
  from remote_command_returns_to_idle
         [OF h1 h2, of True FailedNullish "sessionStart ''user@gemini:~$''"] h1 h2
  show ?thesis by simp
qed

section \<open>Several words after cd\<close>

text \<open>
  Claim C10. A command line made of \<^verbatim>\<open>cd\<close> and further words, with any non-empty runs
  of white space between them (and any white space around the line), calls
  \<^verbatim>\<open>handleCd\<close> once, with the words joined by single spaces as its one argument; the
  extra words are not rejected. So \<^verbatim>\<open>cd foo   bar\<close> tries to enter the single entry
  \<^verbatim>\<open>foo bar\<close> of the current directory.
\<close>

theorem cd_arguments_joined_with_single_spaces:
  assumes "wellSpaced xs" "\<forall>c \<in> set pre. isWhitespace c" "\<forall>c \<in> set post. isWhitespace c"
  shows "runCommand createOk reply (pre @ (''cd'' @ spaced xs) @ post) s =
           handleCd createOk (joinWith '' '' (map snd xs))
             ((appendToTerminal (''cd'' @ spaced xs) LogCommand s)\<lparr>inputValue := ''''\<rparr>)"
proof -
  have nows: "\<forall>c \<in> set ''cd''. \<not> isWhitespace c" by (simp add: isWhitespace_def)
  have "\<not> isWhitespace (last (''cd'' @ spaced xs))"
    by (rule last_spaced [OF assms(1)]) (simp_all add: isWhitespace_def)
  moreover have "\<not> isWhitespace (hd (''cd'' @ spaced xs))" by (simp add: isWhitespace_def)
  ultimately have t: "trim (pre @ (''cd'' @ spaced xs) @ post) = ''cd'' @ spaced xs"
    using assms(2,3) by (intro trim_padded) simp_all
  from splitWhitespace_spaced [OF assms(1) nows]
  have sp: "splitWhitespace (''cd'' @ spaced xs) = ''cd'' # map snd xs" .
  have ne: "''cd'' @ spaced xs \<noteq> ''''" by simp
  show ?thesis
    unfolding runCommand_def Let_def t sp using ne by simp
qed

theorem cd_arguments_joined_with_single_spaces_witness:
  "wellSpaced [('' '', ''foo''), (''   '', ''bar'')] \<and>
   ''cd'' @ spaced [('' '', ''foo''), (''   '', ''bar'')] = ''cd foo   bar'' \<and>
   runCommand True (Replied None) ''cd foo   bar'' (sessionStart ''user@gemini:~$'') =
     handleCd True ''foo bar''
       ((appendToTerminal ''cd foo   bar'' LogCommand (sessionStart ''user@gemini:~$''))
          \<lparr>inputValue := ''''\<rparr>) \<and>
   resolveParts [] (newPathParts [''~''] ''foo bar'') = [''~'', ''foo bar''] \<and>
   resolve [''~''] ''foo bar'' = NotFound"
proof -
  have w: "wellSpaced [('' '', ''foo''), (''   '', ''bar'')]"
    by (simp add: wellSpaced_def isWhitespace_def)
  have e: "\<forall>c \<in> set ''''. isWhitespace c" by simp
  have r: "resolve [''~''] ''foo bar'' = NotFound"
    by (simp add: resolve_def newPathParts_def getDirectory_def isDirectory_def
                  fileSystem_def member_def objectPrototypeKeys_def)
  have p: "resolveParts [] (newPathParts [''~''] ''foo bar'') = [''~'', ''foo bar'']"
    by (simp add: newPathParts_def)
  from cd_arguments_joined_with_single_spaces
         [OF w e e, of True "Replied None" "sessionStart ''user@gemini:~$''"] w r p
  show ?thesis by simp
qed

end
